theory Spec2Isabelle
  imports Complex_Main "HOL-Library.Sublist"
begin

chapter \<open>block-seek: the agent's parser, memory, rate limiter, request loop and tools\<close>

text \<open>
  A shallow embedding of the Python sources \<^verbatim>\<open>agent/core.py\<close>, \<^verbatim>\<open>utils/api.py\<close>,
  \<^verbatim>\<open>tools/base.py\<close> and \<^verbatim>\<open>tools/nft.py\<close>. Python strings are modelled as \<^typ>\<open>string\<close>:
  lists of 8-bit characters, that is Python strings whose code points are below 256.
  Exceptions are values of a sum type (\<open>Inl\<close> is the raised exception), mutable objects are
  records passed in and returned, and everything read from the network, the clock or a
  library is a parameter of the function that reads it.
\<close>

section \<open>Python string primitives\<close>

text \<open>\<^verbatim>\<open>str.isspace\<close> on one character: the white space of Unicode below code point 256.\<close>

definition is_space :: "char \<Rightarrow> bool" where
  "is_space c = (c \<in> set [CHR 0x09, CHR 0x0A, CHR 0x0B, CHR 0x0C, CHR 0x0D,
                           CHR 0x1C, CHR 0x1D, CHR 0x1E, CHR 0x1F, CHR 0x20,
                           CHR 0x85, CHR 0xA0])"

definition lstrip :: "string \<Rightarrow> string" where
  "lstrip s = dropWhile is_space s"

definition rstrip :: "string \<Rightarrow> string" where
  "rstrip s = rev (dropWhile is_space (rev s))"

text \<open>\<^verbatim>\<open>str.strip()\<close> with no argument.\<close>

definition strip :: "string \<Rightarrow> string" where
  "strip s = rstrip (lstrip s)"

text \<open>
  \<^verbatim>\<open>str.lower()\<close>, one character at a time: below code point 256 the upper-case letters
  are A to Z and the Latin-1 letters 0xC0 to 0xDE without the multiplication sign 0xD7,
  and each is 32 below its lower-case letter.
\<close>

definition lower_char :: "char \<Rightarrow> char" where
  "lower_char c =
     (let n = (of_char c :: nat)
      in if (65 \<le> n \<and> n \<le> 90) \<or> (192 \<le> n \<and> n \<le> 222 \<and> n \<noteq> 215)
         then char_of (n + 32) else c)"

definition lower :: "string \<Rightarrow> string" where
  "lower s = map lower_char s"

text \<open>
  \<^verbatim>\<open>s.split(sep)\<close> for a separator: the pieces between the occurrences of \<open>sep\<close>, found
  from the left and not overlapping. \<open>acc\<close> holds the current piece, reversed. (Python
  raises on an empty separator; the parser's separator is a literal.)
\<close>

fun split_from :: "string \<Rightarrow> string \<Rightarrow> string \<Rightarrow> string list" where
  "split_from sep acc [] = [rev acc]"
| "split_from sep acc (c # cs) =
     (if sep \<noteq> [] \<and> prefix sep (c # cs)
      then rev acc # split_from sep [] (drop (length sep) (c # cs))
      else split_from sep (c # acc) cs)"

definition split :: "string \<Rightarrow> string \<Rightarrow> string list" where
  "split sep s = split_from sep [] s"

text \<open>\<^verbatim>\<open>sep.join(parts)\<close>.\<close>

fun join :: "string \<Rightarrow> string list \<Rightarrow> string" where
  "join sep [] = []"
| "join sep [p] = p"
| "join sep (p # q # ps) = p @ sep @ join sep (q # ps)"

text \<open>
  \<^verbatim>\<open>re.search\<close>: the pattern is tried at every position from the left, the end of the
  text included, and the first position where it matches wins. The argument is the
  pattern's matcher at one position.
\<close>

fun re_search :: "(string \<Rightarrow> 'a option) \<Rightarrow> string \<Rightarrow> 'a option" where
  "re_search m [] = m []"
| "re_search m (c # cs) =
     (case m (c # cs) of Some r \<Rightarrow> Some r | None \<Rightarrow> re_search m cs)"

section \<open>The output parser (\<^verbatim>\<open>Web3AgentOutputParser.parse\<close>, agent/core.py)\<close>

text \<open>
  \<^verbatim>\<open>AgentFinish(return_values={"output": ...}, log=...)\<close> and
  \<^verbatim>\<open>AgentAction(tool=..., tool_input=..., log=...)\<close>. The tool input is the raw string or
  what \<^verbatim>\<open>json.loads\<close> made of it.
\<close>

datatype 'j tool_input = Raw string | Decoded 'j

datatype 'j agent_outcome =
    AgentFinish string string
  | AgentAction string "'j tool_input" string

datatype parse_error = ValueError string

definition FINAL_ANSWER :: string where
  "FINAL_ANSWER = ''Final Answer:''"

definition NL :: char where
  "NL = CHR 0x0A"

text \<open>
  The pattern \<^verbatim>\<open>Action: *(.*?)[\n$]\<close> at one position, its group 1 returned. After the
  literal and the blanks, the lazy group takes characters other than a newline until the
  class \<^verbatim>\<open>[\n$]\<close> matches: a newline or a dollar sign (inside a class the dollar is the
  character, not the end of the text). With neither left in the text there is no match,
  however many blanks the first star gives back.
\<close>

definition match_action :: "string \<Rightarrow> string option" where
  "match_action s =
     (if prefix ''Action:'' s
      then (let r = dropWhile (\<lambda>c. c = CHR '' '') (drop 7 s);
                g = takeWhile (\<lambda>c. c \<noteq> NL \<and> c \<noteq> CHR ''$'') r
            in if length g < length r then Some g else None)
      else None)"

text \<open>
  The pattern \<^verbatim>\<open>Action Input: *(.*?)(?:$|\n)\<close> under \<^verbatim>\<open>re.DOTALL\<close> at one position, its
  group 1 returned. The lazy group stops as soon as the alternative after it matches, and
  that is at the first newline or at the end of the text, whichever comes first; the flag
  lets the dot match a newline, but the group never reaches one.
\<close>

definition match_action_input :: "string \<Rightarrow> string option" where
  "match_action_input s =
     (if prefix ''Action Input:'' s
      then Some (takeWhile (\<lambda>c. c \<noteq> NL) (dropWhile (\<lambda>c. c = CHR '' '') (drop 13 s)))
      else None)"

text \<open>
  \<^verbatim>\<open>parse\<close>. \<open>loads\<close> is \<^verbatim>\<open>json.loads\<close>, with \<open>None\<close> for \<^verbatim>\<open>json.JSONDecodeError\<close>.
\<close>

definition parse :: "(string \<Rightarrow> 'j option) \<Rightarrow> string \<Rightarrow> parse_error + 'j agent_outcome" where
  "parse loads text0 =
     (let text = strip text0 in
      if sublist FINAL_ANSWER text
      then Inr (AgentFinish (strip (last (split FINAL_ANSWER text))) text)
      else
        (case (re_search match_action text, re_search match_action_input text) of
           (Some a, Some i) \<Rightarrow>
             (let action = strip a;
                  action_input = strip i
              in Inr (AgentAction action
                        (if prefix ''{'' action_input \<and> suffix ''}'' action_input
                         then (case loads action_input of
                                 Some j \<Rightarrow> Decoded j
                               | None \<Rightarrow> Raw action_input)
                         else Raw action_input)
                        text))
         | _ \<Rightarrow> Inl (ValueError (''Could not parse LLM output: '' @ text))))"

section \<open>The conversation memory (\<^verbatim>\<open>EnhancedConversationMemory\<close>, agent/core.py)\<close>

datatype message = HumanMessage string | AIMessage string

record EntityContext =
  last_address :: "string option"

record EnhancedConversationMemory =
  chat_memory :: "message list"
  entity_context :: EntityContext

text \<open>The memory a new agent starts with: no messages, \<^verbatim>\<open>last_address = None\<close>.\<close>

definition new_memory :: EnhancedConversationMemory where
  "new_memory = \<lparr>chat_memory = [], entity_context = \<lparr>last_address = None\<rparr>\<rparr>"

text \<open>
  Modelled from the spec: \<^verbatim>\<open>ConversationBufferMemory.save_context\<close> and
  \<^verbatim>\<open>ConversationBufferMemory.clear\<close>, the methods of the library class the memory
  inherits, are not in the sources. The spec has the turn's query and answer appended to
  the transcript, and the reset clear it; neither knows the field \<^verbatim>\<open>entity_context\<close>,
  which the subclass adds.
\<close>

definition base_save_context ::
  "string \<Rightarrow> string \<Rightarrow> EnhancedConversationMemory \<Rightarrow> EnhancedConversationMemory" where
  "base_save_context query output m =
     m\<lparr>chat_memory := chat_memory m @ [HumanMessage query, AIMessage output]\<rparr>"

definition base_clear :: "EnhancedConversationMemory \<Rightarrow> EnhancedConversationMemory" where
  "base_clear m = m\<lparr>chat_memory := []\<rparr>"

definition is_hex :: "char \<Rightarrow> bool" where
  "is_hex c = (c \<in> set ''abcdefABCDEF0123456789'')"

text \<open>The pattern \<^verbatim>\<open>0x[a-fA-F0-9]{40}\<close> at one position, the matched text returned.\<close>

definition match_address :: "string \<Rightarrow> string option" where
  "match_address s =
     (if prefix ''0x'' s \<and> 42 \<le> length s \<and> list_all is_hex (take 40 (drop 2 s))
      then Some (take 42 s) else None)"

text \<open>
  \<^verbatim>\<open>re.findall\<close> of that pattern: the matches from the left, the scan going on behind
  each match.
\<close>

fun findall_address :: "string \<Rightarrow> string list" where
  "findall_address [] = []"
| "findall_address (c # cs) =
     (case match_address (c # cs) of
        Some m \<Rightarrow> m # findall_address (drop 42 (c # cs))
      | None \<Rightarrow> findall_address cs)"

text \<open>
  \<^verbatim>\<open>save_context\<close>, called by \<^verbatim>\<open>process_query\<close> with \<^verbatim>\<open>{"input": query}\<close> and
  \<^verbatim>\<open>{"output": ...}\<close>: the inherited method first, then the addresses of the lower-cased
  query.
\<close>

definition save_context ::
  "string \<Rightarrow> string \<Rightarrow> EnhancedConversationMemory \<Rightarrow> EnhancedConversationMemory" where
  "save_context input output m =
     (let m1 = base_save_context input output m;
          query = lower input;
          eth_addresses = findall_address query
      in (case eth_addresses of
            [] \<Rightarrow> m1
          | a # _ \<Rightarrow> m1\<lparr>entity_context := (entity_context m1)\<lparr>last_address := Some a\<rparr>\<rparr>))"

text \<open>
  \<^verbatim>\<open>Web3Agent.clear_memory\<close> calls \<^verbatim>\<open>self.memory.clear()\<close>; the memory class does not
  define \<^verbatim>\<open>clear\<close>, so the inherited one runs.
\<close>

definition clear_memory :: "EnhancedConversationMemory \<Rightarrow> EnhancedConversationMemory" where
  "clear_memory m = base_clear m"

text \<open>
  \<^verbatim>\<open>Web3Agent._format_query_with_context\<close>. The context dictionary is the list of its
  items, each value already rendered by \<^verbatim>\<open>str\<close>. A stored address is used when it is
  truthy: not \<^verbatim>\<open>None\<close> and not empty.
\<close>

definition format_query_with_context ::
  "EnhancedConversationMemory \<Rightarrow> string \<Rightarrow> (string \<times> string) list \<Rightarrow> string" where
  "format_query_with_context memory query context =
     (let q1 =
        (case last_address (entity_context memory) of
           Some address \<Rightarrow>
             (if \<not> sublist ''address'' (lower query) \<and> address \<noteq> [] \<and>
                 list_ex (\<lambda>word. sublist word (lower query)) [''it'', ''that'', ''the'', ''this'']
              then query @ '' for address '' @ address
              else query)
         | None \<Rightarrow> query)
      in if context \<noteq> []
         then q1 @ [NL] @ ''Context:'' @ [NL] @
              join [NL] (map (\<lambda>(k, v). k @ '': '' @ v) context)
         else q1)"

section \<open>The rate limiter (\<^verbatim>\<open>RateLimiter\<close>, utils/api.py)\<close>

text \<open>
  Times are the seconds \<^verbatim>\<open>time.time()\<close> returns, taken as real numbers; the clock is read
  once per call and is the call's first argument.
\<close>

record RateLimiter =
  requests_per_second :: int
  last_request_time :: "string \<rightharpoonup> real"

text \<open>\<^verbatim>\<open>RateLimiter(requests_per_second)\<close>, with the default of 10.\<close>

definition new_rate_limiter :: "int \<Rightarrow> RateLimiter" where
  "new_rate_limiter rps = \<lparr>requests_per_second = rps, last_request_time = Map.empty\<rparr>"

definition default_rate_limiter :: RateLimiter where
  "default_rate_limiter = new_rate_limiter 10"

datatype api_exn = HTTPException int string | ZeroDivisionError

text \<open>
  \<^verbatim>\<open>check_rate_limit\<close>: the exception raised, if any, and the limiter afterwards. The
  division \<^verbatim>\<open>1.0 / self.requests_per_second\<close> is evaluated only when the key has a
  recorded time, and raises for a rate of zero.
\<close>

definition check_rate_limit :: "real \<Rightarrow> string \<Rightarrow> RateLimiter \<Rightarrow> api_exn option \<times> RateLimiter" where
  "check_rate_limit current_time key rl =
     (let allowed = (None, rl\<lparr>last_request_time := (last_request_time rl)(key \<mapsto> current_time)\<rparr>)
      in case last_request_time rl key of
           Some last_time \<Rightarrow>
             (let time_passed = current_time - last_time
              in if requests_per_second rl = 0 then (Some ZeroDivisionError, rl)
                 else if time_passed < 1 / real_of_int (requests_per_second rl)
                 then (Some (HTTPException 429 ''Rate limit exceeded''), rl)
                 else allowed)
         | None \<Rightarrow> allowed)"

text \<open>A sequence of calls on one limiter, each with its clock reading and its key.\<close>

fun check_calls ::
  "RateLimiter \<Rightarrow> (real \<times> string) list \<Rightarrow> api_exn option list \<times> RateLimiter" where
  "check_calls rl [] = ([], rl)"
| "check_calls rl ((t, key) # calls) =
     (let (e, rl1) = check_rate_limit t key rl;
          (es, rl2) = check_calls rl1 calls
      in (e # es, rl2))"

text \<open>
  What the claim about the limiter speaks of: the time of the last call of a history that
  was for the key and was allowed (raised nothing).
\<close>

definition last_allowed ::
  "(real \<times> string) list \<Rightarrow> api_exn option list \<Rightarrow> string \<Rightarrow> real option" where
  "last_allowed calls outcomes key =
     (case filter (\<lambda>((t, k), e). k = key \<and> e = None) (zip calls outcomes) of
        [] \<Rightarrow> None
      | x # xs \<Rightarrow> Some (fst (fst (last (x # xs)))))"

section \<open>The request loop (\<^verbatim>\<open>APIHandler.make_request\<close>, utils/api.py)\<close>

text \<open>\<^verbatim>\<open>str\<close> of an integer, for the f-strings.\<close>

function str_nat :: "nat \<Rightarrow> string" where
  "str_nat n =
     (if n < 10 then [''0123456789'' ! n]
      else str_nat (n div 10) @ [''0123456789'' ! (n mod 10)])"
  by pat_completeness auto
termination
  by (relation "measure (\<lambda>n. n)") auto

declare str_nat.simps [simp del]

definition str_int :: "int \<Rightarrow> string" where
  "str_int i = (if i < 0 then ''-'' @ str_nat (nat (- i)) else str_nat (nat i))"

record APIHandler =
  api_key :: "string option"
  rate_limiters :: "string \<rightharpoonup> RateLimiter"

definition get_rate_limiter :: "string \<Rightarrow> APIHandler \<Rightarrow> RateLimiter \<times> APIHandler" where
  "get_rate_limiter api_name h =
     (case rate_limiters h api_name of
        None \<Rightarrow> (default_rate_limiter,
                 h\<lparr>rate_limiters := (rate_limiters h)(api_name \<mapsto> default_rate_limiter)\<rparr>)
      | Some rl \<Rightarrow> (rl, h))"

text \<open>
  What one pass through the \<^verbatim>\<open>try\<close> block meets. The three \<^verbatim>\<open>except\<close> clauses tell
  \<^verbatim>\<open>asyncio.TimeoutError\<close>, \<^verbatim>\<open>aiohttp.ClientError\<close> and any other exception apart. A
  response has its status, what \<^verbatim>\<open>await response.text()\<close> gives and what
  \<^verbatim>\<open>await response.json()\<close> gives; both reads can raise, and \<^verbatim>\<open>ValueError\<close> from the
  second has a handler of its own.
\<close>

datatype transport_exn = TimeoutError | ClientError string | OtherException string

datatype 'j json_outcome = JsonOk 'j | JsonValueError | JsonRaises transport_exn

datatype 'j attempt_outcome =
    Raises transport_exn
  | Response int "transport_exn + string" "'j json_outcome"

datatype 'j payload = JsonData 'j | TextData string

text \<open>The dictionary \<^verbatim>\<open>make_request\<close> returns; a key it does not set is \<open>None\<close>.\<close>

record 'j response_dict =
  success :: bool
  error :: "string option"
  detail :: "string option"
  data :: "'j payload option"
  status_code :: "int option"

text \<open>The body of the \<^verbatim>\<open>try\<close>: the dictionary returned, or the exception raised.\<close>

fun try_body :: "'j attempt_outcome \<Rightarrow> transport_exn + 'j response_dict" where
  "try_body (Raises e) = Inl e"
| "try_body (Response status text_read json_read) =
     (if status div 100 \<notin> set [2, 3]
      then (case text_read of
              Inl e \<Rightarrow> Inl e
            | Inr error_data \<Rightarrow>
                Inr \<lparr>success = False, error = Some (''HTTP '' @ str_int status),
                     detail = Some error_data, data = None, status_code = Some status\<rparr>)
      else (case json_read of
              JsonOk d \<Rightarrow>
                Inr \<lparr>success = True, error = None, detail = None,
                     data = Some (JsonData d), status_code = Some status\<rparr>
            | JsonValueError \<Rightarrow>
                (case text_read of
                   Inl e \<Rightarrow> Inl e
                 | Inr text_data \<Rightarrow>
                     Inr \<lparr>success = True, error = None, detail = None,
                          data = Some (TextData text_data), status_code = Some status\<rparr>)
            | JsonRaises e \<Rightarrow> Inl e))"

text \<open>The dictionary an \<^verbatim>\<open>except\<close> clause returns on the last attempt.\<close>

fun failure_dict :: "string \<Rightarrow> int \<Rightarrow> transport_exn \<Rightarrow> 'j response_dict" where
  "failure_dict url timeout TimeoutError =
     \<lparr>success = False, error = Some ''Request timeout'',
      detail = Some (''Request to '' @ url @ '' timed out after '' @ str_int timeout @ '' seconds''),
      data = None, status_code = None\<rparr>"
| "failure_dict url timeout (ClientError msg) =
     \<lparr>success = False, error = Some ''Connection error'', detail = Some msg,
      data = None, status_code = None\<rparr>"
| "failure_dict url timeout (OtherException msg) =
     \<lparr>success = False, error = Some ''Request failed'', detail = Some msg,
      data = None, status_code = None\<rparr>"

text \<open>What the loop does that a caller can observe: requests sent and sleeps.\<close>

datatype event = Attempt nat | Sleep int

text \<open>
  \<^verbatim>\<open>for attempt in range(retry_count)\<close> over the attempts still to come. \<open>net\<close> tells what
  attempt number \<open>n\<close> meets. The result is \<open>None\<close> when the loop ends without a
  \<^verbatim>\<open>return\<close>, as it does for \<^verbatim>\<open>retry_count <= 0\<close>.
\<close>

fun request_attempts ::
  "(nat \<Rightarrow> 'j attempt_outcome) \<Rightarrow> string \<Rightarrow> int \<Rightarrow> int \<Rightarrow> int \<Rightarrow> nat list \<Rightarrow>
   event list \<times> 'j response_dict option" where
  "request_attempts net url timeout retry_count retry_delay [] = ([], None)"
| "request_attempts net url timeout retry_count retry_delay (attempt # rest) =
     (case try_body (net attempt) of
        Inr d \<Rightarrow> ([Attempt attempt], Some d)
      | Inl e \<Rightarrow>
          (if int attempt = retry_count - 1
           then ([Attempt attempt], Some (failure_dict url timeout e))
           else (let (events, r) = request_attempts net url timeout retry_count retry_delay rest
                 in (Attempt attempt #
                     (if int attempt < retry_count - 1
                      then [Sleep (retry_delay * (int attempt + 1))] else []) @ events,
                     r))))"

text \<open>
  \<^verbatim>\<open>make_request\<close>: the rate limit first, outside the \<^verbatim>\<open>try\<close>, then the loop. The headers
  and parameters it builds do not decide what it returns and are left out.
\<close>

definition make_request ::
  "real \<Rightarrow> (nat \<Rightarrow> 'j attempt_outcome) \<Rightarrow> string \<Rightarrow> string \<Rightarrow> int \<Rightarrow> int \<Rightarrow> int \<Rightarrow> APIHandler \<Rightarrow>
   (api_exn + 'j response_dict option) \<times> event list \<times> APIHandler" where
  "make_request current_time net api_name url timeout retry_count retry_delay h =
     (let (rate_limiter, h1) = get_rate_limiter api_name h;
          (e, rate_limiter') = check_rate_limit current_time api_name rate_limiter;
          h2 = h1\<lparr>rate_limiters := (rate_limiters h1)(api_name \<mapsto> rate_limiter')\<rparr>
      in case e of
           Some exn \<Rightarrow> (Inl exn, [], h2)
         | None \<Rightarrow>
             (let (events, r) =
                    request_attempts net url timeout retry_count retry_delay [0..<nat retry_count]
              in (Inr r, events, h2)))"

section \<open>The tool contract (\<^verbatim>\<open>BaseTool\<close>, tools/base.py) and the NFT tool (tools/nft.py)\<close>

text \<open>
  The exceptions a tool meets, each with the text \<^verbatim>\<open>str\<close> gives for it. \<open>PyException\<close>
  is any other class derived from \<^verbatim>\<open>Exception\<close>, named; \<open>PyBaseException\<close> is a class
  that is not (\<^verbatim>\<open>KeyboardInterrupt\<close>, \<^verbatim>\<open>SystemExit\<close>, a task's cancellation), which
  \<^verbatim>\<open>except Exception\<close> lets through.
\<close>

datatype tool_exn =
    ToolException string
  | AttributeError string
  | TypeError string
  | PyException string string
  | PyBaseException string string

fun str_exn :: "tool_exn \<Rightarrow> string" where
  "str_exn (ToolException msg) = msg"
| "str_exn (AttributeError msg) = msg"
| "str_exn (TypeError msg) = msg"
| "str_exn (PyException cls msg) = msg"
| "str_exn (PyBaseException cls msg) = msg"

fun is_Exception :: "tool_exn \<Rightarrow> bool" where
  "is_Exception (PyBaseException cls msg) = False"
| "is_Exception e = True"

text \<open>
  The dictionary a tool returns: \<^verbatim>\<open>{"status", "tool", "result"}\<close> from
  \<^verbatim>\<open>format_output\<close>, \<^verbatim>\<open>{"status", "tool", "error"}\<close> from \<^verbatim>\<open>handle_error\<close>. A key that
  is not set is \<open>None\<close>; the key \<^verbatim>\<open>error\<close> is the field \<open>error_message\<close> (the request
  dictionary above has the name \<open>error\<close>).
\<close>

record 'r envelope =
  status :: string
  tool :: string
  result :: "'r option"
  error_message :: "string option"

definition format_output :: "string \<Rightarrow> 'r \<Rightarrow> tool_exn + 'r envelope" where
  "format_output name r =
     Inr \<lparr>status = ''success'', tool = name, result = Some r, error_message = None\<rparr>"

definition handle_error :: "string \<Rightarrow> tool_exn \<Rightarrow> tool_exn + 'r envelope" where
  "handle_error name e =
     Inr \<lparr>status = ''error'', tool = name, result = None, error_message = Some (str_exn e)\<rparr>"

text \<open>
  \<^verbatim>\<open>try: body  except Exception as e: return handler(e)\<close>: the handler runs for an
  exception of a class derived from \<^verbatim>\<open>Exception\<close>, and any other goes on to the caller.
\<close>

definition try_except_Exception ::
  "tool_exn + 'a \<Rightarrow> (tool_exn \<Rightarrow> tool_exn + 'a) \<Rightarrow> tool_exn + 'a" where
  "try_except_Exception body handler =
     (case body of
        Inl e \<Rightarrow> if is_Exception e then handler e else Inl e
      | Inr v \<Rightarrow> Inr v)"

text \<open>
  What \<^verbatim>\<open>make_request\<close> hands to \<^verbatim>\<open>calculate_rarity_scores\<close>: a dictionary with
  \<^verbatim>\<open>success\<close> false, or one with \<^verbatim>\<open>success\<close> true and its \<^verbatim>\<open>data\<close>. The data is a
  dictionary, of which only the member \<^verbatim>\<open>assets\<close> is read, or something else with no
  method \<^verbatim>\<open>get\<close> (the response's text, a list). The member is missing, or something to
  iterate over (its items listed), or a scalar, given by its truth value.
\<close>

datatype 'a assets_member = Missing | Items "'a list" | Scalar bool

datatype 'a response_data = DictData "'a assets_member" | NonDictData

datatype 'a api_response = ApiFailure string | ApiSuccess "'a response_data"

text \<open>A Python value that may be \<^verbatim>\<open>None\<close>.\<close>

datatype 'v pyval = PyNone | PyVal 'v

text \<open>
  The \<^verbatim>\<open>while\<close> loop of \<^verbatim>\<open>calculate_rarity_scores\<close>. \<open>request\<close> is the call of
  \<^verbatim>\<open>make_request\<close> for the contract with the parameters \<^verbatim>\<open>limit\<close> and \<^verbatim>\<open>offset\<close>; it
  may raise. The loop returns the assets gathered when it ends or breaks.
\<close>

function fetch_assets ::
  "(string \<Rightarrow> int \<Rightarrow> nat \<Rightarrow> tool_exn + 'a api_response) \<Rightarrow> string \<Rightarrow> int \<Rightarrow> 'a list \<Rightarrow> nat \<Rightarrow>
   tool_exn + 'a list" where
  "fetch_assets request contract_address limit assets offset =
     (if int (length assets) < limit
      then (case request contract_address (min 50 (limit - int (length assets))) offset of
              Inl e \<Rightarrow> Inl e
            | Inr (ApiFailure err) \<Rightarrow> Inr assets
            | Inr (ApiSuccess NonDictData) \<Rightarrow>
                Inl (AttributeError ''object has no attribute get'')
            | Inr (ApiSuccess (DictData Missing)) \<Rightarrow> Inr assets
            | Inr (ApiSuccess (DictData (Scalar b))) \<Rightarrow>
                (if b then Inl (TypeError ''object is not iterable'') else Inr assets)
            | Inr (ApiSuccess (DictData (Items xs))) \<Rightarrow>
                (if xs = [] then Inr assets
                 else fetch_assets request contract_address limit
                        (assets @ xs) (offset + length xs)))
      else Inr assets)"
  by pat_completeness auto
termination
  by (relation "measure (\<lambda>(request, contract_address, limit, assets, offset).
                           nat (limit - int (length assets)))") auto

declare fetch_assets.simps [simp del]

text \<open>
  \<^verbatim>\<open>calculate_rarity_scores\<close>: after the loop it raises when no asset was gathered, and
  otherwise reaches the end of its body, which has no \<^verbatim>\<open>return\<close>: Python returns
  \<^verbatim>\<open>None\<close>.
\<close>

definition calculate_rarity_scores ::
  "(string \<Rightarrow> int \<Rightarrow> nat \<Rightarrow> tool_exn + 'a api_response) \<Rightarrow> string \<Rightarrow> int \<Rightarrow> tool_exn + 'v pyval" where
  "calculate_rarity_scores request contract_address limit =
     (case fetch_assets request contract_address limit [] 0 of
        Inl e \<Rightarrow> Inl e
      | Inr assets \<Rightarrow>
          (if assets = []
           then Inl (ToolException ''Failed to fetch assets for rarity calculation'')
           else Inr PyNone))"

text \<open>
  What the NFT tool reads from outside: \<^verbatim>\<open>Web3.is_address\<close>, and its methods that call
  the marketplace or compute over what it sent, each returning a value or raising.
\<close>

record ('a, 'v) nft_env =
  is_address :: "string \<Rightarrow> bool"
  get_collection_stats :: "string \<Rightarrow> tool_exn + 'v"
  assets_request :: "string \<Rightarrow> int \<Rightarrow> nat \<Rightarrow> tool_exn + 'a api_response"
  get_sales_history :: "string \<Rightarrow> int \<Rightarrow> tool_exn + 'v"
  analyze_price_trends :: "'v \<Rightarrow> tool_exn + 'v"
  get_token_metadata :: "string \<Rightarrow> int \<Rightarrow> tool_exn + 'v"

text \<open>
  The keyword arguments \<^verbatim>\<open>execute\<close> reads: the truth values of \<^verbatim>\<open>include_rarity\<close> and
  \<^verbatim>\<open>include_sales\<close>, and \<^verbatim>\<open>limit\<close>, \<^verbatim>\<open>days\<close> and \<^verbatim>\<open>token_id\<close>, \<open>None\<close> when not given.
\<close>

record nft_kwargs =
  include_rarity :: bool
  limit :: "int option"
  include_sales :: bool
  days :: "int option"
  token_id :: "int option"

definition NFT_ANALYSIS_LIMIT :: int where
  "NFT_ANALYSIS_LIMIT = 1000"

definition validate_input :: "('a, 'v) nft_env \<Rightarrow> string \<Rightarrow> tool_exn + bool" where
  "validate_input env contract_address =
     (if \<not> is_address env contract_address
      then Inl (ToolException ''Invalid NFT contract address'')
      else Inr True)"

text \<open>The body of the \<^verbatim>\<open>try\<close> in \<^verbatim>\<open>NFTTool.execute\<close>; the result is the dictionary built.\<close>

definition execute_body ::
  "('a, 'v) nft_env \<Rightarrow> string \<Rightarrow> nft_kwargs \<Rightarrow> tool_exn + (string \<times> 'v pyval) list envelope" where
  "execute_body env contract_address kwargs =
     (case validate_input env contract_address of
        Inl e \<Rightarrow> Inl e
      | Inr _ \<Rightarrow>
     (case get_collection_stats env contract_address of
        Inl e \<Rightarrow> Inl e
      | Inr stats \<Rightarrow>
     (case (if include_rarity kwargs
            then (case calculate_rarity_scores (assets_request env) contract_address
                         (case limit kwargs of Some l \<Rightarrow> l | None \<Rightarrow> NFT_ANALYSIS_LIMIT) of
                    Inl e \<Rightarrow> Inl e
                  | Inr rarity \<Rightarrow>
                      Inr [(''collection_stats'', PyVal stats), (''rarity_analysis'', rarity)])
            else Inr [(''collection_stats'', PyVal stats)]) of
        Inl e \<Rightarrow> Inl e
      | Inr result1 \<Rightarrow>
     (case (if include_sales kwargs
            then (case get_sales_history env contract_address
                         (case days kwargs of Some d \<Rightarrow> d | None \<Rightarrow> 30) of
                    Inl e \<Rightarrow> Inl e
                  | Inr sales_history \<Rightarrow>
                      (case analyze_price_trends env sales_history of
                         Inl e \<Rightarrow> Inl e
                       | Inr price_analysis \<Rightarrow>
                           Inr (result1 @ [(''sales_history'', PyVal sales_history),
                                           (''price_analysis'', PyVal price_analysis)])))
            else Inr result1) of
        Inl e \<Rightarrow> Inl e
      | Inr result2 \<Rightarrow>
     (case (case token_id kwargs of
              Some tid \<Rightarrow>
                (case get_token_metadata env contract_address tid of
                   Inl e \<Rightarrow> Inl e
                 | Inr metadata \<Rightarrow> Inr (result2 @ [(''token_metadata'', PyVal metadata)]))
            | None \<Rightarrow> Inr result2) of
        Inl e \<Rightarrow> Inl e
      | Inr result3 \<Rightarrow> format_output ''NFTTool'' result3)))))"

text \<open>\<^verbatim>\<open>NFTTool.execute\<close>: the body, and \<^verbatim>\<open>handle_error\<close> for what it raises.\<close>

definition execute ::
  "('a, 'v) nft_env \<Rightarrow> string \<Rightarrow> nft_kwargs \<Rightarrow> tool_exn + (string \<times> 'v pyval) list envelope" where
  "execute env contract_address kwargs =
     try_except_Exception (execute_body env contract_address kwargs) (handle_error ''NFTTool'')"

section \<open>The orchestration loop\<close>

text \<open>
  Modelled from the spec: the loop is the library's \<^verbatim>\<open>AgentExecutor\<close>, which the sources
  only configure (\<^verbatim>\<open>max_iterations=5\<close>, \<^verbatim>\<open>handle_parsing_errors=True\<close>, agent/core.py);
  its code is not among them. After the spec's state machine: each cycle renders a prompt
  from the query, the transcript and the scratchpad, invokes the model and parses its
  output with \<open>parse\<close>. A final answer ends the run in \<open>DONE\<close>. A tool invocation is
  dispatched by name (an unknown name gives an observation, not a fault), the observation
  joins the scratchpad, and the loop renders again. A parse failure is folded into the
  scratchpad as a corrective observation while cycles remain, and ends the run in
  \<open>FAILED\<close> when none does. The count of cycles forces \<open>FAILED\<close> at the maximum.
  The result carries the prompts rendered, one per cycle, in order.
\<close>

record prompt =
  p_query :: string
  p_transcript :: "message list"
  p_scratchpad :: "(string \<times> string) list"

datatype failure = IterationExhausted | ParseBudgetExhausted

datatype terminal = DONE string | FAILED failure

definition MAX_ITERATIONS :: nat where
  "MAX_ITERATIONS = 5"

definition dispatch_tool ::
  "(string \<rightharpoonup> ('j tool_input \<Rightarrow> string)) \<Rightarrow> string \<Rightarrow> 'j tool_input \<Rightarrow> string" where
  "dispatch_tool registry name input =
     (case registry name of
        None \<Rightarrow> name @ '' is not a valid tool: tool not found''
      | Some tool_execute \<Rightarrow> tool_execute input)"

definition PARSE_CORRECTION :: string where
  "PARSE_CORRECTION = ''could not parse output, must use the exact format''"

function orchestration_loop ::
  "(prompt \<Rightarrow> string) \<Rightarrow> (string \<Rightarrow> 'j option) \<Rightarrow> (string \<rightharpoonup> ('j tool_input \<Rightarrow> string)) \<Rightarrow>
   string \<Rightarrow> message list \<Rightarrow> (string \<times> string) list \<Rightarrow> nat \<Rightarrow> terminal \<times> prompt list" where
  "orchestration_loop llm loads registry query transcript scratchpad n =
     (if MAX_ITERATIONS \<le> n then (FAILED IterationExhausted, [])
      else
        (let p = \<lparr>p_query = query, p_transcript = transcript, p_scratchpad = scratchpad\<rparr>;
             output = llm p
         in case parse loads output of
              Inr (AgentFinish answer raw) \<Rightarrow> (DONE answer, [p])
            | Inr (AgentAction name input raw) \<Rightarrow>
                apsnd ((#) p)
                  (orchestration_loop llm loads registry query transcript
                     (scratchpad @ [(raw, dispatch_tool registry name input)]) (Suc n))
            | Inl (ValueError msg) \<Rightarrow>
                (if Suc n < MAX_ITERATIONS
                 then apsnd ((#) p)
                        (orchestration_loop llm loads registry query transcript
                           (scratchpad @ [(output, PARSE_CORRECTION)]) (Suc n))
                 else (FAILED ParseBudgetExhausted, [p]))))"
  by pat_completeness auto
termination
  by (relation "measure (\<lambda>(llm, loads, registry, query, transcript, scratchpad, n).
                           MAX_ITERATIONS - n)") auto

declare orchestration_loop.simps [simp del]

text \<open>One run: an empty scratchpad and no cycle yet.\<close>

definition run ::
  "(prompt \<Rightarrow> string) \<Rightarrow> (string \<Rightarrow> 'j option) \<Rightarrow> (string \<rightharpoonup> ('j tool_input \<Rightarrow> string)) \<Rightarrow>
   string \<Rightarrow> message list \<Rightarrow> terminal \<times> prompt list" where
  "run llm loads registry query transcript =
     orchestration_loop llm loads registry query transcript [] 0"

section \<open>Notions the properties speak of\<close>

text \<open>An address-shaped token: \<^verbatim>\<open>0x\<close> followed by 40 hexadecimal characters.\<close>

definition address_shaped :: "string \<Rightarrow> bool" where
  "address_shaped tok = (length tok = 42 \<and> take 2 tok = ''0x'' \<and> list_all is_hex (drop 2 tok))"

text \<open>The double quote, for the examples.\<close>

definition DQ :: char where
  "DQ = CHR 0x22"

text \<open>An outcome that, when it is a raised exception, is one \<^verbatim>\<open>except Exception\<close> catches.\<close>

definition raises_only_Exceptions :: "tool_exn + 'a \<Rightarrow> bool" where
  "raises_only_Exceptions r = (case r of Inl e \<Rightarrow> is_Exception e | Inr v \<Rightarrow> True)"

text \<open>
  An environment for the examples: one contract address is valid, and the marketplace
  rejects the statistics request.
\<close>

definition example_env :: "(unit, unit) nft_env" where
  "example_env =
     \<lparr>is_address = (\<lambda>a. a = ''0xbc4ca0eda7647a8ab7c2061c2e118a18a936f13d''),
      get_collection_stats =
        (\<lambda>a. Inl (PyException ''HTTPException'' ''429: Rate limit exceeded'')),
      assets_request = (\<lambda>a l off. Inr (ApiFailure ''Request timeout'')),
      get_sales_history = (\<lambda>a d. Inr ()),
      analyze_price_trends = (\<lambda>v. Inr ()),
      get_token_metadata = (\<lambda>a t. Inr ())\<rparr>"

section \<open>Properties of the string primitives\<close>

lemma split_from_nonempty: "split_from sep acc s \<noteq> []"
  by (induction sep acc s rule: split_from.induct) auto

lemma split_from_no_sep:
  "\<not> sublist sep s \<Longrightarrow> split_from sep acc s = [rev acc @ s]"
proof (induction sep acc s rule: split_from.induct)
  case (1 sep acc)
  then show ?case by simp
next
  case (2 sep acc c cs)
  from "2.prems" have np: "\<not> prefix sep (c # cs)" and ns: "\<not> sublist sep cs"
    by (auto simp: sublist_Cons_right)
  with "2.IH"(2) show ?case by simp
qed

lemma last_split_from:
  "sep = f # m \<Longrightarrow> f \<notin> set m \<Longrightarrow> s = pre @ sep @ rest \<Longrightarrow> \<not> sublist sep rest \<Longrightarrow>
   last (split_from sep acc s) = rest"
proof (induction sep acc s arbitrary: pre rule: split_from.induct)
  case (1 sep acc)
  then show ?case by simp
next
  case (2 sep acc c cs)
  note sep = "2.prems"(1) and fm = "2.prems"(2) and dec = "2.prems"(3) and nsub = "2.prems"(4)
  have sepne: "sep \<noteq> []" using sep by simp
  show ?case
  proof (cases "prefix sep (c # cs)")
    case True
    then obtain s' where s': "c # cs = sep @ s'" by (auto simp: prefix_def)
    have drop_s': "drop (length sep) (c # cs) = s'" using s' by simp
    have "split_from sep acc (c # cs) = rev acc # split_from sep [] (drop (length sep) (c # cs))"
      using True sepne by simp
    then have step: "last (split_from sep acc (c # cs)) = last (split_from sep [] s')"
      by (simp add: drop_s' split_from_nonempty)
    show ?thesis
    proof (cases pre)
      case Nil
      with dec s' have "s' = rest" by simp
      with nsub step show ?thesis by (simp add: split_from_no_sep)
    next
      case (Cons p ps)
      have len: "length sep \<le> length pre"
      proof (rule ccontr)
        assume "\<not> length sep \<le> length pre"
        then have lt: "length pre < length sep" by simp
        have "(c # cs) ! length pre = f"
          using dec sep by (simp add: nth_append)
        moreover have "(c # cs) ! length pre = sep ! length pre"
          using s' lt by (simp add: nth_append)
        moreover have "sep ! length pre \<in> set m"
          using lt Cons sep by (cases "length pre") auto
        ultimately show False using fm by simp
      qed
      have "s' = drop (length sep) pre @ sep @ rest"
      proof -
        have "s' = drop (length sep) (c # cs)" using s' by simp
        also have "\<dots> = drop (length sep) (pre @ sep @ rest)" using dec by simp
        also have "\<dots> = drop (length sep) pre @ sep @ rest" using len by simp
        finally show ?thesis .
      qed
      moreover have "drop (length sep) (c # cs) = s'" using s' by simp
      ultimately have "last (split_from sep [] s') = rest"
        using "2.IH"(1)[OF _ sep fm _ nsub, of "drop (length sep) pre"] True sepne by simp
      with step show ?thesis by simp
    qed
  next
    case False
    then have "pre \<noteq> []" using dec by (cases pre) auto
    then obtain p ps where pre: "pre = p # ps" by (cases pre) auto
    with dec have cs: "cs = ps @ sep @ rest" by simp
    have "split_from sep acc (c # cs) = split_from sep (c # acc) cs"
      using False by simp
    moreover have "last (split_from sep (c # acc) cs) = rest"
      using False by (intro "2.IH"(2)[OF _ sep fm cs nsub]) simp
    ultimately show ?thesis by simp
  qed
qed

lemma dropWhile_keep_block:
  "ys \<noteq> [] \<Longrightarrow> \<not> P (hd ys) \<Longrightarrow> dropWhile P (xs @ ys @ zs) = dropWhile P xs @ ys @ zs"
  by (induction xs) (auto simp: neq_Nil_conv)

lemma lstrip_block:
  "ys \<noteq> [] \<Longrightarrow> \<not> is_space (hd ys) \<Longrightarrow> lstrip (xs @ ys @ zs) = lstrip xs @ ys @ zs"
  by (simp add: lstrip_def dropWhile_keep_block)

lemma rstrip_block:
  assumes "ys \<noteq> []" and "\<not> is_space (last ys)"
  shows "rstrip (xs @ ys @ zs) = xs @ ys @ rstrip zs"
proof -
  have "dropWhile is_space (rev zs @ rev ys @ rev xs) = dropWhile is_space (rev zs) @ rev ys @ rev xs"
    using assms by (intro dropWhile_keep_block) (simp_all add: hd_rev)
  then show ?thesis by (simp add: rstrip_def)
qed

lemma strip_block:
  assumes "ys \<noteq> []" and "\<not> is_space (hd ys)" and "\<not> is_space (last ys)"
  shows "strip (xs @ ys @ zs) = lstrip xs @ ys @ rstrip zs"
  using assms by (simp add: strip_def lstrip_block rstrip_block)

lemma rstrip_prefix: "prefix (rstrip s) s"
proof -
  have "suffix (dropWhile is_space (rev s)) (rev s)"
    by (rule suffix_dropWhile)
  then show ?thesis
    unfolding rstrip_def by (metis rev_rev_ident suffix_to_prefix)
qed

lemma lstrip_rstrip_commute: "lstrip (rstrip s) = rstrip (lstrip s)"
proof (cases "\<forall>x\<in>set s. is_space x")
  case True
  then have a: "dropWhile is_space s = []" and b: "dropWhile is_space (rev s) = []" by simp_all
  show ?thesis unfolding lstrip_def rstrip_def a b by simp
next
  case False
  then obtain x where x: "x \<in> set s" "\<not> is_space x" by auto
  then obtain ys zs where s: "s = ys @ [x] @ zs" by (auto simp: in_set_conv_decomp)
  have r: "rstrip (ys @ [x] @ zs) = ys @ [x] @ rstrip zs" for ys
    using x(2) by (intro rstrip_block) simp_all
  have l: "lstrip (ys @ [x] @ zs) = lstrip ys @ [x] @ zs" for zs
    using x(2) by (intro lstrip_block) simp_all
  show ?thesis unfolding s r l ..
qed

lemma rstrip_idem: "rstrip (rstrip s) = rstrip s"
  by (simp add: rstrip_def)

lemma strip_rstrip: "strip (rstrip s) = strip s"
  by (simp add: strip_def lstrip_rstrip_commute rstrip_idem)

lemma FINAL_ANSWER_shape:
  "FINAL_ANSWER = CHR ''F'' # ''inal Answer:''" "CHR ''F'' \<notin> set ''inal Answer:''"
  "FINAL_ANSWER \<noteq> []" "\<not> is_space (hd FINAL_ANSWER)" "\<not> is_space (last FINAL_ANSWER)"
  by (simp_all add: FINAL_ANSWER_def is_space_def)

lemma last_occurrence_exists:
  "sep \<noteq> [] \<Longrightarrow> sublist sep s \<Longrightarrow>
   \<exists>pre rest. s = pre @ sep @ rest \<and> (\<forall>i>length pre. \<not> prefix sep (drop i s))"
proof (induction s)
  case Nil
  then show ?case by simp
next
  case (Cons c cs)
  show ?case
  proof (cases "sublist sep cs")
    case True
    with Cons.IH Cons.prems(1) obtain pre rest where
      d: "cs = pre @ sep @ rest" and l: "\<forall>i>length pre. \<not> prefix sep (drop i cs)" by blast
    have "c # cs = (c # pre) @ sep @ rest" using d by simp
    moreover have "\<forall>i>length (c # pre). \<not> prefix sep (drop i (c # cs))"
    proof (intro allI impI)
      fix i assume "length (c # pre) < i"
      then obtain j where "i = Suc j" "length pre < j" by (cases i) auto
      with l show "\<not> prefix sep (drop i (c # cs))" by simp
    qed
    ultimately show ?thesis by blast
  next
    case False
    with Cons.prems(2) have "prefix sep (c # cs)" by (simp add: sublist_Cons_right)
    then obtain rest where "c # cs = [] @ sep @ rest" by (auto simp: prefix_def)
    moreover have "\<forall>i>length ([]::'a list). \<not> prefix sep (drop i (c # cs))"
    proof (intro allI impI)
      fix i assume "length ([]::'a list) < i"
      then obtain j where i: "i = Suc j" by (cases i) auto
      have "prefix sep (drop j cs) \<Longrightarrow> sublist sep cs"
        by (metis append_take_drop_id prefix_def sublist_appendI)
      with False i show "\<not> prefix sep (drop i (c # cs))" by auto
    qed
    ultimately show ?thesis by blast
  qed
qed

lemma last_occurrence_rest:
  assumes "s = pre @ sep @ rest" and "\<forall>i>length pre. \<not> prefix sep (drop i s)" and "sep \<noteq> []"
  shows "\<not> sublist sep rest"
proof
  assume "sublist sep rest"
  then obtain ps ss where r: "rest = ps @ sep @ ss" by (auto simp: sublist_def)
  let ?i = "length pre + length sep + length ps"
  have "drop ?i s = sep @ ss" using assms(1) r by simp
  then have "prefix sep (drop ?i s)" by simp
  moreover have "length pre < ?i" using assms(3) by simp
  ultimately show False using assms(2) by blast
qed

section \<open>The parser on a final answer\<close>

text \<open>
  Claim C2. For every input that contains the marker \<^verbatim>\<open>Final Answer:\<close>, \<open>parse\<close> returns
  an \<open>AgentFinish\<close> whose output is everything after the last occurrence of the marker
  (the occurrence after whose start no other starts), stripped of surrounding white space,
  and whose log is the stripped input. Nothing is asked of the rest of the input, so this
  holds with \<^verbatim>\<open>Action:\<close> and \<^verbatim>\<open>Action Input:\<close> markers present too: the final answer is
  checked first.
\<close>

theorem parse_final_answer:
  assumes "sublist FINAL_ANSWER text"
  shows "\<exists>pre rest. text = pre @ FINAL_ANSWER @ rest \<and>
           (\<forall>i>length pre. \<not> prefix FINAL_ANSWER (drop i text)) \<and>
           parse loads text = Inr (AgentFinish (strip rest) (strip text))"
proof -
  from last_occurrence_exists[OF FINAL_ANSWER_shape(3) assms] obtain pre rest where
    d: "text = pre @ FINAL_ANSWER @ rest" and
    l: "\<forall>i>length pre. \<not> prefix FINAL_ANSWER (drop i text)" by blast
  have nsub: "\<not> sublist FINAL_ANSWER rest"
    using last_occurrence_rest[OF d l] FINAL_ANSWER_shape(3) by simp
  have st: "strip text = lstrip pre @ FINAL_ANSWER @ rstrip rest"
    unfolding d by (rule strip_block) (rule FINAL_ANSWER_shape)+
  have nsub': "\<not> sublist FINAL_ANSWER (rstrip rest)"
    using nsub rstrip_prefix[of rest] by (meson prefix_imp_sublist sublist_order.order_trans)
  have "last (split FINAL_ANSWER (strip text)) = rstrip rest"
    unfolding split_def
    by (rule last_split_from[OF FINAL_ANSWER_shape(1) FINAL_ANSWER_shape(2) st nsub'])
  moreover have "sublist FINAL_ANSWER (strip text)"
    unfolding st by (rule sublist_appendI)
  ultimately have "parse loads text = Inr (AgentFinish (strip rest) (strip text))"
    by (simp add: parse_def Let_def strip_rstrip)
  with d l show ?thesis by blast
qed

text \<open>
  An input with an action block and two markers: the output is what follows the second.
\<close>

theorem parse_final_answer_witness:
  "sublist FINAL_ANSWER
     (''Action: TokenTool'' @ [NL] @ ''Action Input: BTC'' @ [NL] @
      ''Final Answer: maybe'' @ [NL] @ ''Final Answer:  42  '' @ [NL]) \<and>
   (\<exists>pre rest.
      ''Action: TokenTool'' @ [NL] @ ''Action Input: BTC'' @ [NL] @
      ''Final Answer: maybe'' @ [NL] @ ''Final Answer:  42  '' @ [NL] = pre @ FINAL_ANSWER @ rest \<and>
      (\<forall>i>length pre. \<not> prefix FINAL_ANSWER
         (drop i (''Action: TokenTool'' @ [NL] @ ''Action Input: BTC'' @ [NL] @
                  ''Final Answer: maybe'' @ [NL] @ ''Final Answer:  42  '' @ [NL]))) \<and>
      parse (\<lambda>s. None :: unit option)
        (''Action: TokenTool'' @ [NL] @ ''Action Input: BTC'' @ [NL] @
         ''Final Answer: maybe'' @ [NL] @ ''Final Answer:  42  '' @ [NL]) =
      Inr (AgentFinish (strip rest)
             (strip (''Action: TokenTool'' @ [NL] @ ''Action Input: BTC'' @ [NL] @
                     ''Final Answer: maybe'' @ [NL] @ ''Final Answer:  42  '' @ [NL]))))"
proof -
  have h: "sublist FINAL_ANSWER
     (''Action: TokenTool'' @ [NL] @ ''Action Input: BTC'' @ [NL] @
      ''Final Answer: maybe'' @ [NL] @ ''Final Answer:  42  '' @ [NL])"
    by code_simp
  from parse_final_answer[OF h] h show ?thesis by blast
qed

section \<open>The parser on an action\<close>

text \<open>
  Claim C3. The claim has the tool input be the entire text after \<^verbatim>\<open>Action Input:\<close> up to
  the end of the content, spanning newlines. The code stops the group at the first
  newline: for an input whose action input is a JSON object written over several lines,
  the tool input is the raw string of the first line, an opening brace, whatever
  \<^verbatim>\<open>json.loads\<close> would make of the whole object. And an \<^verbatim>\<open>Action:\<close> marker that ends the
  text has neither a newline nor a dollar sign behind it, so an input with both markers in
  that order is a parse failure.
\<close>

theorem parse_action_input_stops_at_newline:
  "parse (loads :: string \<Rightarrow> 'j::equal option)
     (''Action: TokenTool'' @ [NL] @ ''Action Input: {'' @ [NL] @
      [DQ] @ ''symbol'' @ [DQ] @ '': '' @ [DQ] @ ''BTC'' @ [DQ] @ [NL] @ ''}'') =
   Inr (AgentAction ''TokenTool'' (Raw ''{'')
     (''Action: TokenTool'' @ [NL] @ ''Action Input: {'' @ [NL] @
      [DQ] @ ''symbol'' @ [DQ] @ '': '' @ [DQ] @ ''BTC'' @ [DQ] @ [NL] @ ''}'')) \<and>
   parse loads (''Action Input: BTC'' @ [NL] @ ''Action: TokenTool'') =
   Inl (ValueError (''Could not parse LLM output: '' @
                    ''Action Input: BTC'' @ [NL] @ ''Action: TokenTool''))"
  by code_simp

section \<open>The memory\<close>

lemma match_address_iff:
  "match_address s = Some t \<longleftrightarrow> address_shaped (take 42 s) \<and> t = take 42 s"
proof -
  have a: "drop 2 (take 42 s) = take 40 (drop 2 s)" by (simp add: drop_take)
  have b: "42 \<le> length s \<Longrightarrow> prefix ''0x'' s \<longleftrightarrow> take 2 s = ''0x''"
    by (cases s; cases "tl s") (auto)
  show ?thesis
    unfolding match_address_def address_shaped_def a using b
    by (auto simp: min_def)
qed

lemma match_address_None_iff:
  "match_address s = None \<longleftrightarrow> \<not> address_shaped (take 42 s)"
  using match_address_iff[of s "take 42 s"] by (cases "match_address s") (auto simp: match_address_iff)

lemma findall_address_first:
  "\<forall>i<length pre. match_address (drop i (pre @ rest)) = None \<Longrightarrow>
   match_address rest = Some t \<Longrightarrow>
   \<exists>more. findall_address (pre @ rest) = t # more"
proof (induction pre)
  case Nil
  then have "rest \<noteq> []" by (auto simp: match_address_def)
  then obtain c cs where "rest = c # cs" by (cases rest) auto
  with Nil show ?case by simp
next
  case (Cons p ps)
  from Cons.prems(1) have "match_address (drop 0 ((p # ps) @ rest)) = None" by blast
  then have h: "match_address (p # ps @ rest) = None" by simp
  have "\<forall>i<length ps. match_address (drop i (ps @ rest)) = None"
  proof (intro allI impI)
    fix i assume "i < length ps"
    then have "Suc i < length (p # ps)" by simp
    with Cons.prems(1) have "match_address (drop (Suc i) ((p # ps) @ rest)) = None" by blast
    then show "match_address (drop i (ps @ rest)) = None" by simp
  qed
  with Cons.IH Cons.prems(2) obtain more where "findall_address (ps @ rest) = t # more" by blast
  with h show ?case by simp
qed

lemma lower_append: "lower (xs @ ys) = lower xs @ lower ys"
  by (simp add: lower_def)

lemma length_lower: "length (lower s) = length s"
  by (simp add: lower_def)

lemma clear_memory_entity_context: "entity_context (clear_memory m) = entity_context m"
  by (simp add: clear_memory_def base_clear_def)

lemma save_context_keeps_set:
  "last_address (entity_context m) = Some a \<Longrightarrow>
   \<exists>b. last_address (entity_context (save_context input output m)) = Some b"
  by (auto simp: save_context_def Let_def base_save_context_def split: list.splits)


text \<open>
  Claim C5. The claim has the reset leave \<^verbatim>\<open>last_address\<close> at \<^verbatim>\<open>None\<close>. After a turn
  that mentioned an address, \<open>clear_memory\<close> empties the transcript and the address is still
  stored: the inherited \<^verbatim>\<open>clear\<close> is all that runs, and the entity context is not its
  concern (\<open>clear_memory_entity_context\<close>, for every memory). That no other operation
  clears a stored address holds (\<open>save_context_keeps_set\<close>).
\<close>

theorem clear_memory_keeps_last_address:
  "chat_memory (clear_memory (save_context ''check balance of 0xABCDEF0123456789ABCDEF0123456789ABCDEF01'' ''ok'' new_memory)) = [] \<and>
   last_address (entity_context (clear_memory (save_context ''check balance of 0xABCDEF0123456789ABCDEF0123456789ABCDEF01'' ''ok'' new_memory))) =
     Some ''0xabcdef0123456789abcdef0123456789abcdef01''"
  by code_simp

text \<open>
  Claim C6, as the claim states it, fails on the spec's own example: the query is
  lower-cased before the pattern is applied, so the address stored is the token in lower
  case, not as the user supplied it.
\<close>

theorem save_context_case_counterexample:
  "findall_address ''check balance of 0xABCDEF0123456789ABCDEF0123456789ABCDEF01'' = [''0xABCDEF0123456789ABCDEF0123456789ABCDEF01''] \<and>
   last_address (entity_context (save_context ''check balance of 0xABCDEF0123456789ABCDEF0123456789ABCDEF01'' ''ok'' new_memory)) =
     Some ''0xabcdef0123456789abcdef0123456789abcdef01'' \<and>
   last_address (entity_context (save_context ''check balance of 0xABCDEF0123456789ABCDEF0123456789ABCDEF01'' ''ok'' new_memory)) \<noteq>
     Some ''0xABCDEF0123456789ABCDEF0123456789ABCDEF01''"
  by code_simp

text \<open>
  Claim C6, amended. For every query with a token whose lower-cased text is address-shaped,
  and with no address-shaped token starting before it in the lower-cased query, saving the
  turn sets \<^verbatim>\<open>last_address\<close> to that token in lower case.
\<close>

theorem save_context_last_address:
  assumes "input = pre @ tok @ post"
    and "address_shaped (lower tok)"
    and "\<forall>i<length pre. \<not> address_shaped (take 42 (drop i (lower input)))"
  shows "last_address (entity_context (save_context input output m)) = Some (lower tok)"
proof -
  have li: "lower input = lower pre @ (lower tok @ lower post)"
    using assms(1) by (simp add: lower_append)
  have len: "length (lower tok) = 42" using assms(2) by (simp add: address_shaped_def)
  have "match_address (lower tok @ lower post) = Some (lower tok)"
    using assms(2) len by (simp add: match_address_iff)
  moreover have "\<forall>i<length (lower pre). match_address (drop i (lower pre @ (lower tok @ lower post))) = None"
    using assms(3) li by (simp add: match_address_None_iff length_lower)
  ultimately obtain more where "findall_address (lower input) = lower tok # more"
    using findall_address_first[of "lower pre" "lower tok @ lower post" "lower tok"] li by auto
  then show ?thesis by (simp add: save_context_def Let_def base_save_context_def)
qed


theorem save_context_last_address_witness:
  "''check balance of 0xABCDEF0123456789ABCDEF0123456789ABCDEF01'' =
     ''check balance of '' @ ''0xABCDEF0123456789ABCDEF0123456789ABCDEF01'' @ [] \<and>
   address_shaped (lower ''0xABCDEF0123456789ABCDEF0123456789ABCDEF01'') \<and>
   last_address (entity_context (save_context ''check balance of 0xABCDEF0123456789ABCDEF0123456789ABCDEF01'' ''ok'' new_memory)) =
     Some (lower ''0xABCDEF0123456789ABCDEF0123456789ABCDEF01'')"
proof -
  have h1: "''check balance of 0xABCDEF0123456789ABCDEF0123456789ABCDEF01'' = ''check balance of '' @ ''0xABCDEF0123456789ABCDEF0123456789ABCDEF01'' @ []"
    by simp
  have h2: "address_shaped (lower ''0xABCDEF0123456789ABCDEF0123456789ABCDEF01'')"
    by code_simp
  have h3: "\<forall>i<length ''check balance of ''.
              \<not> address_shaped (take 42 (drop i (lower ''check balance of 0xABCDEF0123456789ABCDEF0123456789ABCDEF01'')))"
    by code_simp
  note r = save_context_last_address[OF h1 h2 h3, of "''ok''" new_memory]
  show ?thesis by (rule conjI[OF h1 conjI[OF h2 r]])
qed

section \<open>The query rewriting\<close>

text \<open>
  Claim C7, as the claim states it, fails both ways. The code does not look for an
  address-shaped token in the query: it looks for the word \<^verbatim>\<open>address\<close>. A query with a
  cue word and no token is left alone when it has that word, and a query with a token is
  rewritten when it has a cue word and not that word.
\<close>

theorem format_query_counterexample:
  "findall_address ''what is the balance of this address'' = [] \<and>
   format_query_with_context
     \<lparr>chat_memory = [],
      entity_context = \<lparr>last_address = Some ''0xabcdef0123456789abcdef0123456789abcdef01''\<rparr>\<rparr>
     ''what is the balance of this address'' [] =
   ''what is the balance of this address'' \<and>
   findall_address ''check it 0x1111111111111111111111111111111111111111'' =
     [''0x1111111111111111111111111111111111111111''] \<and>
   format_query_with_context
     \<lparr>chat_memory = [],
      entity_context = \<lparr>last_address = Some ''0xabcdef0123456789abcdef0123456789abcdef01''\<rparr>\<rparr>
     ''check it 0x1111111111111111111111111111111111111111'' [] =
   ''check it 0x1111111111111111111111111111111111111111 for address 0xabcdef0123456789abcdef0123456789abcdef01''"
  by code_simp

text \<open>
  Claim C7, amended. With a non-empty address stored and no context given: a query whose
  lower-cased text does not contain \<^verbatim>\<open>address\<close> and contains one of \<^verbatim>\<open>it\<close>, \<^verbatim>\<open>that\<close>,
  \<^verbatim>\<open>the\<close>, \<^verbatim>\<open>this\<close> (anywhere, inside a word too) is rewritten by appending
  \<^verbatim>\<open> for address \<close> and the stored address; a query whose lower-cased text contains
  \<^verbatim>\<open>address\<close> is returned as it is, with an address-shaped token or without.
\<close>

theorem format_query_rewrite:
  assumes "last_address (entity_context memory) = Some address" and "address \<noteq> []"
  shows "(\<not> sublist ''address'' (lower query) \<and>
          (sublist ''it'' (lower query) \<or> sublist ''that'' (lower query) \<or>
           sublist ''the'' (lower query) \<or> sublist ''this'' (lower query)) \<longrightarrow>
          format_query_with_context memory query [] = query @ '' for address '' @ address) \<and>
         (sublist ''address'' (lower query) \<longrightarrow>
          format_query_with_context memory query [] = query)"
  using assms by (auto simp: format_query_with_context_def)


theorem format_query_rewrite_witness:
  "last_address (entity_context
     \<lparr>chat_memory = [],
      entity_context = \<lparr>last_address = Some ''0xabcdef0123456789abcdef0123456789abcdef01''\<rparr>\<rparr>) =
     Some ''0xabcdef0123456789abcdef0123456789abcdef01'' \<and>
   \<not> sublist ''address'' (lower ''what about its transactions'') \<and>
   sublist ''it'' (lower ''what about its transactions'') \<and>
   format_query_with_context
     \<lparr>chat_memory = [],
      entity_context = \<lparr>last_address = Some ''0xabcdef0123456789abcdef0123456789abcdef01''\<rparr>\<rparr>
     ''what about its transactions'' [] =
   ''what about its transactions'' @ '' for address '' @
   ''0xabcdef0123456789abcdef0123456789abcdef01'' \<and>
   sublist ''address'' (lower ''balance of that Address'') \<and>
   format_query_with_context
     \<lparr>chat_memory = [],
      entity_context = \<lparr>last_address = Some ''0xabcdef0123456789abcdef0123456789abcdef01''\<rparr>\<rparr>
     ''balance of that Address'' [] = ''balance of that Address''"
proof -
  let ?m = "\<lparr>chat_memory = [],
      entity_context = \<lparr>last_address = Some ''0xabcdef0123456789abcdef0123456789abcdef01''\<rparr>\<rparr>"
  have h1: "last_address (entity_context ?m) = Some ''0xabcdef0123456789abcdef0123456789abcdef01''"
    by simp
  have h2: "''0xabcdef0123456789abcdef0123456789abcdef01'' \<noteq> []" by simp
  have a1: "\<not> sublist ''address'' (lower ''what about its transactions'')" by code_simp
  have a2: "sublist ''it'' (lower ''what about its transactions'')" by code_simp
  have a3: "sublist ''address'' (lower ''balance of that Address'')" by code_simp
  from format_query_rewrite[OF h1 h2, of "''what about its transactions''"]
       format_query_rewrite[OF h1 h2, of "''balance of that Address''"] h1 a1 a2 a3
  show ?thesis by blast
qed

section \<open>The rate limiter\<close>

lemma last_allowed_Cons:
  "last_allowed ((t, k) # calls) (e # es) key =
     (case last_allowed calls es key of
        Some x \<Rightarrow> Some x
      | None \<Rightarrow> (if k = key \<and> e = None then Some t else None))"
  by (auto simp: last_allowed_def split: list.splits)

lemma last_allowed_Nil: "last_allowed [] es key = None"
  by (simp add: last_allowed_def)

lemma check_rate_limit_rps:
  "requests_per_second (snd (check_rate_limit t key rl)) = requests_per_second rl"
  by (simp add: check_rate_limit_def Let_def split: option.splits)

lemma check_rate_limit_times:
  "last_request_time (snd (check_rate_limit t k rl)) =
     (if fst (check_rate_limit t k rl) = None then (last_request_time rl)(k \<mapsto> t)
      else last_request_time rl)"
  by (simp add: check_rate_limit_def Let_def split: option.splits)

lemma check_calls_state:
  "check_calls rl0 calls = (outcomes, rl) \<Longrightarrow>
   requests_per_second rl = requests_per_second rl0 \<and>
   last_request_time rl key =
     (case last_allowed calls outcomes key of
        Some t \<Rightarrow> Some t
      | None \<Rightarrow> last_request_time rl0 key)"
proof (induction calls arbitrary: rl0 outcomes rl)
  case Nil
  then show ?case by (simp add: last_allowed_Nil)
next
  case (Cons c calls)
  obtain t k where c: "c = (t, k)" by (cases c)
  obtain e rl1 where s1: "check_rate_limit t k rl0 = (e, rl1)" by (cases "check_rate_limit t k rl0")
  obtain es rl2 where s2: "check_calls rl1 calls = (es, rl2)" by (cases "check_calls rl1 calls")
  from Cons.prems c s1 s2 have o: "outcomes = e # es" and r: "rl = rl2" by simp_all
  from Cons.IH[OF s2] have
    ih1: "requests_per_second rl2 = requests_per_second rl1" and
    ih2: "last_request_time rl2 key =
            (case last_allowed calls es key of Some t \<Rightarrow> Some t | None \<Rightarrow> last_request_time rl1 key)"
    by simp_all
  have r1: "requests_per_second rl1 = requests_per_second rl0"
    using check_rate_limit_rps[of t k rl0] s1 by simp
  have t1: "last_request_time rl1 = (if e = None then (last_request_time rl0)(k \<mapsto> t) else last_request_time rl0)"
    using check_rate_limit_times[of t k rl0] s1 by simp
  show ?case
    unfolding c o r using ih1 ih2 r1 t1
    by (auto simp: last_allowed_Cons split: option.splits)
qed

text \<open>
  Claim C9. Take a limiter as its constructor leaves it, with a rate other than zero, and
  any sequence of calls on it. For every key, the time recorded is the time of the last
  call for that key that was allowed, so only allowed calls record a time. The next call
  is rejected with the status 429 exactly when such a call exists and is less than
  \<open>1 / requests_per_second\<close> seconds back; otherwise, and so for a key's first call, it
  is allowed. A rejected call leaves the limiter as it was, and an allowed one records its
  time. (The call raises at once: the function holds no sleep and no queue.)
\<close>

theorem check_rate_limit_sequence:
  assumes "requests_per_second rl0 \<noteq> 0"
    and "last_request_time rl0 = Map.empty"
    and "check_calls rl0 calls = (outcomes, rl)"
  shows "last_request_time rl key = last_allowed calls outcomes key \<and>
         (fst (check_rate_limit t key rl) = Some (HTTPException 429 ''Rate limit exceeded'') \<longleftrightarrow>
            (\<exists>t0. last_allowed calls outcomes key = Some t0 \<and>
                  t - t0 < 1 / real_of_int (requests_per_second rl0))) \<and>
         (fst (check_rate_limit t key rl) = None \<longleftrightarrow>
            \<not> (\<exists>t0. last_allowed calls outcomes key = Some t0 \<and>
                    t - t0 < 1 / real_of_int (requests_per_second rl0))) \<and>
         snd (check_rate_limit t key rl) =
           (if fst (check_rate_limit t key rl) = None
            then rl\<lparr>last_request_time := (last_request_time rl)(key \<mapsto> t)\<rparr>
            else rl)"
proof -
  from check_calls_state[OF assms(3), of key] assms(2) have
    rps: "requests_per_second rl = requests_per_second rl0" and
    lt: "last_request_time rl key = last_allowed calls outcomes key"
    by (auto split: option.splits)
  show ?thesis
    using rps lt assms(1)
    by (auto simp: check_rate_limit_def Let_def split: option.splits)
qed


theorem check_rate_limit_sequence_witness:
  "requests_per_second (new_rate_limiter 10) \<noteq> 0 \<and>
   last_request_time (new_rate_limiter 10) = Map.empty \<and>
   fst (check_calls (new_rate_limiter 10) [(0, ''opensea''), (0.05, ''opensea'')]) =
     [None, Some (HTTPException 429 ''Rate limit exceeded'')] \<and>
   last_allowed [(0, ''opensea''), (0.05, ''opensea'')]
     (fst (check_calls (new_rate_limiter 10) [(0, ''opensea''), (0.05, ''opensea'')]))
     ''opensea'' = Some 0 \<and>
   fst (check_rate_limit 0.08 ''opensea''
          (snd (check_calls (new_rate_limiter 10) [(0, ''opensea''), (0.05, ''opensea'')]))) =
     Some (HTTPException 429 ''Rate limit exceeded'') \<and>
   fst (check_rate_limit 0.08 ''etherscan''
          (snd (check_calls (new_rate_limiter 10) [(0, ''opensea''), (0.05, ''opensea'')]))) =
     None"
proof -
  let ?calls = "[(0::real, ''opensea''), (0.05, ''opensea'')]"
  let ?rl0 = "new_rate_limiter 10"
  have h1: "requests_per_second ?rl0 \<noteq> 0" by (simp add: new_rate_limiter_def)
  have h2: "last_request_time ?rl0 = Map.empty" by (simp add: new_rate_limiter_def)
  have h3: "check_calls ?rl0 ?calls = (fst (check_calls ?rl0 ?calls), snd (check_calls ?rl0 ?calls))"
    by simp
  have o: "fst (check_calls ?rl0 ?calls) = [None, Some (HTTPException 429 ''Rate limit exceeded'')]"
    by (simp add: check_rate_limit_def new_rate_limiter_def Let_def)
  have l1: "last_allowed ?calls (fst (check_calls ?rl0 ?calls)) ''opensea'' = Some 0"
    unfolding o by (simp add: last_allowed_def)
  have l2: "last_allowed ?calls (fst (check_calls ?rl0 ?calls)) ''etherscan'' = None"
    unfolding o by (simp add: last_allowed_def)
  have r: "real_of_int (requests_per_second ?rl0) = 10" by (simp add: new_rate_limiter_def)
  from check_rate_limit_sequence[OF h1 h2 h3, of "''opensea''" "0.08"]
       check_rate_limit_sequence[OF h1 h2 h3, of "''etherscan''" "0.08"]
       h1 h2 o l1 l2 r
  show ?thesis by simp
qed

section \<open>The request loop\<close>

lemma request_attempts_until_return:
  assumes "\<forall>j\<in>set pre. (\<exists>e. net j = Raises e) \<and> int j < retry_count - 1"
    and "try_body (net a) = Inr d"
  shows "request_attempts net url timeout retry_count retry_delay (pre @ a # rest) =
           (concat (map (\<lambda>j. [Attempt j, Sleep (retry_delay * (int j + 1))]) pre) @ [Attempt a],
            Some d)"
  using assms(1)
proof (induction pre)
  case Nil
  show ?case using assms(2) by simp
next
  case (Cons p ps)
  from Cons.prems obtain e where e: "net p = Raises e" and lt: "int p < retry_count - 1" by auto
  from Cons.prems have "\<forall>j\<in>set ps. (\<exists>e. net j = Raises e) \<and> int j < retry_count - 1" by simp
  from Cons.IH[OF this] e lt show ?case by simp
qed

lemma try_body_http_error:
  "code div 100 \<noteq> 2 \<Longrightarrow> code div 100 \<noteq> 3 \<Longrightarrow>
   try_body (Response code (Inr body) json_read) =
     Inr \<lparr>success = False, error = Some (''HTTP '' @ str_int code), detail = Some body,
          data = None, status_code = Some code\<rparr>"
  by simp

text \<open>
  Claim C10. Let the rate limiter admit the call, let every attempt before attempt \<open>i\<close>
  raise, and let attempt \<open>i\<close>, one of the \<open>retry_count\<close> the loop may make, meet a
  response whose status is outside 2xx and 3xx and whose body can be read. Then
  \<open>make_request\<close> returns the dictionary with \<^verbatim>\<open>success\<close> false and the error
  \<^verbatim>\<open>HTTP <status>\<close>, and attempt \<open>i\<close> is the last thing it does: before it lie only the
  attempts that raised, each followed by its sleep of \<open>retry_delay * (attempt + 1)\<close>
  seconds. For \<open>i = 0\<close> the response comes on the first attempt, and the loop makes that
  one request and never sleeps.
\<close>

theorem make_request_http_error_no_retry:
  assumes "fst (check_rate_limit current_time api_name (fst (get_rate_limiter api_name h))) = None"
    and "int i < retry_count"
    and "\<forall>j<i. \<exists>e. net j = Raises e"
    and "net i = Response code (Inr body) json_read"
    and "code div 100 \<noteq> 2" and "code div 100 \<noteq> 3"
  shows "fst (make_request current_time net api_name url timeout retry_count retry_delay h) =
           Inr (Some \<lparr>success = False, error = Some (''HTTP '' @ str_int code),
                      detail = Some body, data = None, status_code = Some code\<rparr>) \<and>
         fst (snd (make_request current_time net api_name url timeout retry_count retry_delay h)) =
           concat (map (\<lambda>j. [Attempt j, Sleep (retry_delay * (int j + 1))]) [0..<i]) @ [Attempt i]"
proof -
  have i: "i < nat retry_count" using assms(2) by simp
  then have range: "[0..<nat retry_count] = [0..<i] @ i # [Suc i..<nat retry_count]"
    by (metis upt_conv_Cons upt_add_eq_append le0 less_imp_le_nat le_add_diff_inverse add_0)
  have pre: "\<forall>j\<in>set [0..<i]. (\<exists>e. net j = Raises e) \<and> int j < retry_count - 1"
    using assms(3) i by auto
  have tb: "try_body (net i) =
     Inr \<lparr>success = False, error = Some (''HTTP '' @ str_int code), detail = Some body,
          data = None, status_code = Some code\<rparr>"
    unfolding assms(4) using assms(5,6) by (rule try_body_http_error)
  note ra = request_attempts_until_return[OF pre tb, of url timeout retry_delay "[Suc i..<nat retry_count]"]
  obtain rl h1 where g: "get_rate_limiter api_name h = (rl, h1)" by (cases "get_rate_limiter api_name h")
  obtain e rl' where c: "check_rate_limit current_time api_name rl = (e, rl')"
    by (cases "check_rate_limit current_time api_name rl")
  from assms(1) g c have e: "e = None" by simp
  have loop: "request_attempts net url timeout retry_count retry_delay [0..<nat retry_count] =
      (concat (map (\<lambda>j. [Attempt j, Sleep (retry_delay * (int j + 1))]) [0..<i]) @ [Attempt i],
       Some \<lparr>success = False, error = Some (''HTTP '' @ str_int code), detail = Some body,
          data = None, status_code = Some code\<rparr>)"
    unfolding range by (rule ra)
  show ?thesis
    by (simp add: make_request_def g c e loop)
qed

theorem make_request_http_error_no_retry_witness:
  "fst (check_rate_limit 0 ''opensea''
          (fst (get_rate_limiter ''opensea'' \<lparr>api_key = None, rate_limiters = Map.empty\<rparr>))) = None \<and>
   int 0 < 3 \<and>
   (404::int) div 100 \<noteq> 2 \<and> (404::int) div 100 \<noteq> 3 \<and>
   fst (make_request 0 (\<lambda>n. Response 404 (Inr ''not found'') (JsonValueError :: unit json_outcome))
          ''opensea'' ''https://api.opensea.io/api/v1/assets'' 30 3 1
          \<lparr>api_key = None, rate_limiters = Map.empty\<rparr>) =
     Inr (Some \<lparr>success = False, error = Some ''HTTP 404'', detail = Some ''not found'',
                data = None, status_code = Some 404\<rparr>) \<and>
   fst (snd (make_request 0 (\<lambda>n. Response 404 (Inr ''not found'') (JsonValueError :: unit json_outcome))
          ''opensea'' ''https://api.opensea.io/api/v1/assets'' 30 3 1
          \<lparr>api_key = None, rate_limiters = Map.empty\<rparr>)) = [Attempt 0]"
proof -
  let ?h = "\<lparr>api_key = None, rate_limiters = Map.empty\<rparr>"
  let ?net = "\<lambda>n::nat. Response 404 (Inr ''not found'') (JsonValueError :: unit json_outcome)"
  have h1: "fst (check_rate_limit 0 ''opensea'' (fst (get_rate_limiter ''opensea'' ?h))) = None"
    by (simp add: check_rate_limit_def get_rate_limiter_def default_rate_limiter_def
                  new_rate_limiter_def)
  have h2: "int 0 < 3" by simp
  have h3: "\<forall>j<0::nat. \<exists>e. ?net j = Raises e" by simp
  have h4: "?net 0 = Response 404 (Inr ''not found'') JsonValueError" by simp
  have h5: "(404::int) div 100 \<noteq> 2" by simp
  have h6: "(404::int) div 100 \<noteq> 3" by simp
  have s: "str_int 404 = ''404''" by code_simp
  note r = make_request_http_error_no_retry[OF h1 h2 h3 h4 h5 h6,
             of "''https://api.opensea.io/api/v1/assets''" 30 1]
  from r h1 h2 h5 h6 show ?thesis unfolding s by simp
qed

section \<open>The NFT tool\<close>

lemma fetch_assets_Exception:
  "\<forall>a l off. raises_only_Exceptions (request a l off) \<Longrightarrow>
   fetch_assets request contract_address lmt assets offset = Inl e \<Longrightarrow> is_Exception e"
proof (induction request contract_address lmt assets offset rule: fetch_assets.induct)
  case (1 request contract_address lmt assets offset)
  note [simp] = fetch_assets.simps[of request contract_address lmt assets offset]
  show ?case
  proof (cases "int (length assets) < lmt")
    case False
    with "1.prems"(2) show ?thesis by simp
  next
    case True
    let ?r = "request contract_address (min 50 (lmt - int (length assets))) offset"
    have ro: "raises_only_Exceptions ?r" using "1.prems"(1) by blast
    show ?thesis
    proof (cases ?r)
      case (Inl e')
      with True "1.prems"(2) ro show ?thesis
        by (simp add: raises_only_Exceptions_def)
    next
      case (Inr resp)
      show ?thesis
      proof (cases resp)
        case (ApiFailure err)
        with Inr True "1.prems"(2) show ?thesis by simp
      next
        case (ApiSuccess d)
        show ?thesis
        proof (cases d)
          case NonDictData
          with ApiSuccess Inr True "1.prems"(2) show ?thesis by auto
        next
          case (DictData mem)
          show ?thesis
          proof (cases mem)
            case Missing
            with DictData ApiSuccess Inr True "1.prems"(2) show ?thesis by simp
          next
            case (Scalar b)
            with DictData ApiSuccess Inr True "1.prems"(2) show ?thesis
              by (auto split: if_splits)
          next
            case (Items xs)
            show ?thesis
            proof (cases "xs = []")
              case emp: True
              with Items DictData ApiSuccess Inr True "1.prems"(2) show ?thesis by simp
            next
              case False
              with Items DictData ApiSuccess Inr True "1.prems"(2)
              have "fetch_assets request contract_address lmt (assets @ xs) (offset + length xs) = Inl e"
                by simp
              with "1.IH"[OF True Inr ApiSuccess DictData Items False "1.prems"(1)]
              show ?thesis by simp
            qed
          qed
        qed
      qed
    qed
  qed
qed

lemma calculate_rarity_scores_Exception:
  "\<forall>a l off. raises_only_Exceptions (request a l off) \<Longrightarrow>
   calculate_rarity_scores request contract_address lmt = Inl e \<Longrightarrow> is_Exception e"
  unfolding calculate_rarity_scores_def
  by (cases "fetch_assets request contract_address lmt [] 0")
     (auto split: if_splits dest: fetch_assets_Exception)

lemma execute_body_Exception:
  assumes "\<forall>a. raises_only_Exceptions (get_collection_stats env a)"
    and "\<forall>a l off. raises_only_Exceptions (assets_request env a l off)"
    and "\<forall>a d. raises_only_Exceptions (get_sales_history env a d)"
    and "\<forall>v. raises_only_Exceptions (analyze_price_trends env v)"
    and "\<forall>a t. raises_only_Exceptions (get_token_metadata env a t)"
    and "execute_body env contract_address kwargs = Inl e"
  shows "is_Exception e"
proof -
  have a: "get_collection_stats env x = Inl e' \<Longrightarrow> is_Exception e'" for x e'
    using assms(1) by (auto simp: raises_only_Exceptions_def split: sum.splits)
  have b: "calculate_rarity_scores (assets_request env) x l = Inl e' \<Longrightarrow> is_Exception e'" for x l e'
    using assms(2) by (rule calculate_rarity_scores_Exception)
  have c: "get_sales_history env x d = Inl e' \<Longrightarrow> is_Exception e'" for x d e'
    using assms(3) by (auto simp: raises_only_Exceptions_def split: sum.splits)
  have d: "analyze_price_trends env v = Inl e' \<Longrightarrow> is_Exception e'" for v e'
    using assms(4) by (auto simp: raises_only_Exceptions_def split: sum.splits)
  have f: "get_token_metadata env x t = Inl e' \<Longrightarrow> is_Exception e'" for x t e'
    using assms(5) by (auto simp: raises_only_Exceptions_def split: sum.splits)
  show ?thesis
    using assms(6) a b c d f
    by (auto simp: execute_body_def validate_input_def format_output_def
             split: sum.splits if_splits option.splits)
qed


text \<open>
  Claim C4. Whatever the input, and whatever the tool's calls return or raise among the
  exceptions \<^verbatim>\<open>except Exception\<close> catches, \<open>execute\<close> returns a dictionary and raises
  nothing: the one its body built, or, when the body raised \<open>e\<close> (an invalid address, a
  failed or timed-out request, anything else), the one with the status \<^verbatim>\<open>error\<close>, the
  tool's name and \<^verbatim>\<open>str(e)\<close>.
\<close>

theorem execute_never_raises:
  assumes "\<forall>a. raises_only_Exceptions (get_collection_stats env a)"
    and "\<forall>a l off. raises_only_Exceptions (assets_request env a l off)"
    and "\<forall>a d. raises_only_Exceptions (get_sales_history env a d)"
    and "\<forall>v. raises_only_Exceptions (analyze_price_trends env v)"
    and "\<forall>a t. raises_only_Exceptions (get_token_metadata env a t)"
  shows "\<exists>envelope.
           execute env contract_address kwargs = Inr envelope \<and>
           (execute_body env contract_address kwargs = Inr envelope \<or>
            (\<exists>e. execute_body env contract_address kwargs = Inl e \<and>
                 envelope = \<lparr>status = ''error'', tool = ''NFTTool'', result = None,
                             error_message = Some (str_exn e)\<rparr>))"
proof (cases "execute_body env contract_address kwargs")
  case (Inl e)
  from execute_body_Exception[OF assms Inl] have "is_Exception e" .
  with Inl show ?thesis
    by (simp add: execute_def try_except_Exception_def handle_error_def)
next
  case (Inr v)
  then show ?thesis by (simp add: execute_def try_except_Exception_def)
qed


text \<open>An invalid address, and a valid one whose statistics request is rejected.\<close>

theorem execute_never_raises_witness:
  "(\<forall>a. raises_only_Exceptions (get_collection_stats example_env a)) \<and>
   (\<forall>a l off. raises_only_Exceptions (assets_request example_env a l off)) \<and>
   (\<forall>a d. raises_only_Exceptions (get_sales_history example_env a d)) \<and>
   (\<forall>v. raises_only_Exceptions (analyze_price_trends example_env v)) \<and>
   (\<forall>a t. raises_only_Exceptions (get_token_metadata example_env a t)) \<and>
   execute example_env ''not an address'' \<lparr>include_rarity = False, limit = None, include_sales = False, days = None, token_id = None\<rparr> =
     Inr \<lparr>status = ''error'', tool = ''NFTTool'', result = None,
          error_message = Some ''Invalid NFT contract address''\<rparr> \<and>
   execute example_env ''0xbc4ca0eda7647a8ab7c2061c2e118a18a936f13d'' \<lparr>include_rarity = False, limit = None, include_sales = False, days = None, token_id = None\<rparr> =
     Inr \<lparr>status = ''error'', tool = ''NFTTool'', result = None,
          error_message = Some ''429: Rate limit exceeded''\<rparr>"
proof -
  have h1: "\<forall>a. raises_only_Exceptions (get_collection_stats example_env a)"
    and h2: "\<forall>a l off. raises_only_Exceptions (assets_request example_env a l off)"
    and h3: "\<forall>a d. raises_only_Exceptions (get_sales_history example_env a d)"
    and h4: "\<forall>v. raises_only_Exceptions (analyze_price_trends example_env v)"
    and h5: "\<forall>a t. raises_only_Exceptions (get_token_metadata example_env a t)"
    by (simp_all add: example_env_def raises_only_Exceptions_def)
  have b1: "execute_body example_env ''not an address'' \<lparr>include_rarity = False, limit = None, include_sales = False, days = None, token_id = None\<rparr> =
              Inl (ToolException ''Invalid NFT contract address'')"
    by (simp add: execute_body_def validate_input_def example_env_def)
  have b2: "execute_body example_env ''0xbc4ca0eda7647a8ab7c2061c2e118a18a936f13d'' \<lparr>include_rarity = False, limit = None, include_sales = False, days = None, token_id = None\<rparr> =
              Inl (PyException ''HTTPException'' ''429: Rate limit exceeded'')"
    by (simp add: execute_body_def validate_input_def example_env_def)
  from execute_never_raises[OF h1 h2 h3 h4 h5, of "''not an address''" "\<lparr>include_rarity = False, limit = None, include_sales = False, days = None, token_id = None\<rparr>"] b1
  have e1: "execute example_env ''not an address'' \<lparr>include_rarity = False, limit = None, include_sales = False, days = None, token_id = None\<rparr> =
     Inr \<lparr>status = ''error'', tool = ''NFTTool'', result = None,
          error_message = Some ''Invalid NFT contract address''\<rparr>"
    by auto
  from execute_never_raises[OF h1 h2 h3 h4 h5,
         of "''0xbc4ca0eda7647a8ab7c2061c2e118a18a936f13d''" "\<lparr>include_rarity = False, limit = None, include_sales = False, days = None, token_id = None\<rparr>"] b2
  have e2: "execute example_env ''0xbc4ca0eda7647a8ab7c2061c2e118a18a936f13d'' \<lparr>include_rarity = False, limit = None, include_sales = False, days = None, token_id = None\<rparr> =
     Inr \<lparr>status = ''error'', tool = ''NFTTool'', result = None,
          error_message = Some ''429: Rate limit exceeded''\<rparr>"
    by auto
  from h1 h2 h3 h4 h5 e1 e2 show ?thesis by blast
qed

text \<open>
  Claim C8. For every contract, limit and behaviour of the marketplace,
  \<open>calculate_rarity_scores\<close> returns no rarity result: it raises (the request raised, the
  data was malformed, or no asset was gathered), or it returns \<^verbatim>\<open>None\<close>, and that exactly
  when the loop gathered at least one asset. It always does one of the two: the loop ends,
  each round adding at least one asset (the termination proof of \<open>fetch_assets\<close>).
\<close>

theorem calculate_rarity_scores_no_result:
  "(\<forall>v. calculate_rarity_scores request contract_address lmt \<noteq> Inr (PyVal v)) \<and>
   (calculate_rarity_scores request contract_address lmt = Inr PyNone \<or>
    (\<exists>e. calculate_rarity_scores request contract_address lmt = Inl e)) \<and>
   (calculate_rarity_scores request contract_address lmt = Inr PyNone \<longleftrightarrow>
    (\<exists>assets. fetch_assets request contract_address lmt [] 0 = Inr assets \<and> assets \<noteq> []))"
  unfolding calculate_rarity_scores_def
  by (cases "fetch_assets request contract_address lmt [] 0") auto

section \<open>The orchestration loop's bound\<close>

lemma loop_length:
  "n \<le> MAX_ITERATIONS \<Longrightarrow>
   length (snd (orchestration_loop llm loads registry query transcript scratchpad n)) \<le> MAX_ITERATIONS - n"
proof (induction llm loads registry query transcript scratchpad n rule: orchestration_loop.induct)
  case (1 llm loads registry query transcript scratchpad n)
  show ?case
  proof (cases "MAX_ITERATIONS \<le> n")
    case True
    then show ?thesis by (simp add: orchestration_loop.simps)
  next
    case False
    then have sn: "Suc n \<le> MAX_ITERATIONS" by simp
    let ?p = "\<lparr>p_query = query, p_transcript = transcript, p_scratchpad = scratchpad\<rparr>"
    show ?thesis
    proof (cases "parse loads (llm ?p)")
      case (Inl err)
      obtain msg where err: "err = ValueError msg" by (cases err)
      show ?thesis
      proof (cases "Suc n < MAX_ITERATIONS")
        case True
        from "1.IH"(1)[OF False refl refl Inl err True sn] False Inl err True
        show ?thesis
          by (subst orchestration_loop.simps) (simp add: Let_def)
      next
        case F: False
        with False Inl err show ?thesis
          by (subst orchestration_loop.simps) (simp add: Let_def)
      qed
    next
      case (Inr outcome)
      show ?thesis
      proof (cases outcome)
        case (AgentFinish answer raw)
        with False Inr show ?thesis
          by (subst orchestration_loop.simps) (simp add: Let_def)
      next
        case (AgentAction name inp raw)
        from "1.IH"(2)[OF False refl refl Inr AgentAction sn] False Inr AgentAction
        show ?thesis
          by (subst orchestration_loop.simps) (simp add: Let_def)
      qed
    qed
  qed
qed

lemma loop_unparsable:
  "\<forall>p. \<exists>e. parse loads (llm p) = Inl e \<Longrightarrow> n < MAX_ITERATIONS \<Longrightarrow>
   fst (orchestration_loop llm loads registry query transcript scratchpad n) =
     FAILED ParseBudgetExhausted \<and>
   length (snd (orchestration_loop llm loads registry query transcript scratchpad n)) =
     MAX_ITERATIONS - n"
proof (induction llm loads registry query transcript scratchpad n rule: orchestration_loop.induct)
  case (1 llm loads registry query transcript scratchpad n)
  let ?p = "\<lparr>p_query = query, p_transcript = transcript, p_scratchpad = scratchpad\<rparr>"
  from "1.prems"(1) obtain err where Inl: "parse loads (llm ?p) = Inl err" by blast
  obtain msg where err: "err = ValueError msg" by (cases err)
  have nle: "\<not> MAX_ITERATIONS \<le> n" using "1.prems"(2) by simp
  show ?case
  proof (cases "Suc n < MAX_ITERATIONS")
    case True
    from "1.IH"(1)[OF nle refl refl Inl err True "1.prems"(1) True] nle Inl err True
    show ?thesis
      by (subst (1 2) orchestration_loop.simps) (simp add: Let_def)
  next
    case False
    with "1.prems"(2) have "MAX_ITERATIONS - n = 1" by simp
    with nle Inl err False show ?thesis
      by (subst (1 2) orchestration_loop.simps) (simp add: Let_def)
  qed
qed

text \<open>
  Claim C1. A run renders at most 5 prompts, whatever the model returns; and with a model
  whose every output fails to parse, the run ends in \<open>FAILED\<close> after exactly 5 cycles.
  Every run ends: \<open>orchestration_loop\<close> is total.
\<close>

theorem run_bounded:
  "length (snd (run llm loads registry query transcript)) \<le> 5 \<and>
   ((\<forall>p. \<exists>e. parse loads (llm p) = Inl e) \<longrightarrow>
      (\<exists>reason. fst (run llm loads registry query transcript) = FAILED reason) \<and>
      length (snd (run llm loads registry query transcript)) = 5)"
proof -
  have m: "MAX_ITERATIONS = 5" by (simp add: MAX_ITERATIONS_def)
  have "length (snd (run llm loads registry query transcript)) \<le> 5"
    using loop_length[of 0 llm loads registry query transcript "[]"] by (simp add: run_def m)
  moreover have "(\<exists>reason. fst (run llm loads registry query transcript) = FAILED reason) \<and>
      length (snd (run llm loads registry query transcript)) = 5"
    if "\<forall>p. \<exists>e. parse loads (llm p) = Inl e"
    using loop_unparsable[OF that, of 0 registry query transcript "[]"] by (simp add: run_def m)
  ultimately show ?thesis by blast
qed


theorem run_bounded_witness:
  "(\<forall>p. \<exists>e. parse (\<lambda>s. None :: unit option) ((\<lambda>p. ''I do not know'') p) = Inl e) \<and>
   (\<exists>reason. fst (run (\<lambda>p. ''I do not know'') (\<lambda>s. None :: unit option) Map.empty
                    ''price of BTC'' []) = FAILED reason) \<and>
   length (snd (run (\<lambda>p. ''I do not know'') (\<lambda>s. None :: unit option) Map.empty
                  ''price of BTC'' [])) = 5"
proof -
  have p: "parse (\<lambda>s. None :: unit option) ''I do not know'' =
             Inl (ValueError ''Could not parse LLM output: I do not know'')"
    by code_simp
  then have h: "\<forall>p::prompt. \<exists>e. parse (\<lambda>s. None :: unit option) ((\<lambda>p. ''I do not know'') p) = Inl e"
    by simp
  from run_bounded[of "\<lambda>p. ''I do not know''" "\<lambda>s. None :: unit option" Map.empty
                     "''price of BTC''" "[]"] h
  show ?thesis by blast
qed

end
